theory Spec2Isabelle
  imports Main "HOL-Library.Sublist" "HOL-Library.Multiset"
begin

section \<open>Data model\<close>

text \<open>
  The identity record a client sends with its events (\<open>user\<close>, \<open>roomData.admin\<close>).
  An absent avatar is the empty string: the handlers store \<open>user.avatar || ''\<close>.
\<close>

record user =
  uid :: string
  displayName :: string
  username :: string
  avatar :: string

text \<open>
  A membership record, an element of \<open>RoomSchema.participants\<close>. \<open>socketId\<close> is
  optional in the schema; \<open>joinedAt\<close> is stamped by the schema default when the
  record is created. Times are natural numbers (milliseconds).
\<close>

record participant =
  p_uid :: string
  p_displayName :: string
  p_username :: string
  p_avatar :: string
  joinedAt :: nat
  socketId :: "string option"

datatype room_status = Live | Ended | Scheduled

text \<open>
  The declared paths of \<open>RoomSchema\<close>. The store's own bookkeeping stamps
  (\<open>createdAt\<close>, \<open>updatedAt\<close> of the \<open>timestamps\<close> option) are not part of the
  record. \<open>maxParticipants\<close> is whatever number the creator sent, so an integer.
\<close>

record room =
  rid :: string
  title :: string
  description :: string
  admin :: user
  participants :: "participant list"
  isLive :: bool
  status :: room_status
  streamKey :: "string option"
  thumbnail :: string
  category :: string
  tags :: "string list"
  isPublic :: bool
  maxParticipants :: int
  currentParticipants :: nat
  startedAt :: nat
  endedAt :: "nat option"
  createdBy :: string
  lastActivity :: nat

datatype message_type = TextMsg | ImageMsg | FileMsg | SystemMsg

text \<open>
  The paths of \<open>MessageSchema\<close> that the modelled operations read or write;
  \<open>createdAt\<close> is the store's creation stamp, the sort key of every message query.
\<close>

record message =
  m_id :: string
  m_roomId :: string
  m_text :: string
  m_user :: user
  m_socketId :: "string option"
  messageType :: message_type
  isEdited :: bool
  isDeleted :: bool
  isPinned :: bool
  createdAt :: nat

text \<open>
  The durable store: the Room collection, keyed by the unique path \<open>id\<close>, and the
  Message collection in insertion order.
\<close>

record store =
  rooms :: "string \<rightharpoonup> room"
  messages :: "message list"

text \<open>
  The variables each connection's closure holds: \<open>currentUser\<close> and \<open>currentRoom\<close>,
  both \<open>null\<close> at connection time.
\<close>

record session =
  currentUser :: "user option"
  currentRoom :: "string option"

text \<open>
  What a handler emits, with its addressee: the calling socket (\<open>socket.emit\<close>), the
  other sockets of a room (\<open>socket.to(roomId).emit\<close>), all sockets of a room
  (\<open>io.to(roomId).emit\<close>) or every connected socket (\<open>io.emit\<close>). An error event is
  kept as its stable \<open>code\<close>.
\<close>

datatype target = Caller | Others string | InRoom string | Everyone

datatype payload =
    ErrorEv string
  | RoomCreated room
  | RoomsUpdatedCreated room
  | RoomUpdated room
  | ExistingMessages "message list"
  | UserJoined user
  | RoomUpdatedBrief string "participant list" nat
  | NewMessage message
  | UserLeft user
  | UserLeftBrief string string
  | RoomDeleted string
  | RoomsUpdatedDeleted string
  | RoomsUpdatedDisconnected string

type_synonym emission = "target \<times> payload"

section \<open>Room methods\<close>

text \<open>\<open>Array.prototype.find\<close> on the participants, by uid.\<close>

definition findParticipant :: "participant list \<Rightarrow> string \<Rightarrow> participant option" where
  "findParticipant ps u = List.find (\<lambda>p. p_uid p = u) ps"

text \<open>
  \<open>RoomSchema.methods.addParticipant\<close>: push, recount and stamp, all three only when
  no participant has the uid yet.
\<close>

definition addParticipant :: "nat \<Rightarrow> participant \<Rightarrow> room \<Rightarrow> room" where
  "addParticipant now p r =
     (case findParticipant (participants r) (p_uid p) of
        None \<Rightarrow> r\<lparr>participants := participants r @ [p],
                   currentParticipants := length (participants r @ [p]),
                   lastActivity := now\<rparr>
      | Some _ \<Rightarrow> r)"

text \<open>\<open>RoomSchema.methods.removeParticipant\<close>: filter, recount and stamp, always.\<close>

definition removeParticipant :: "nat \<Rightarrow> string \<Rightarrow> room \<Rightarrow> room" where
  "removeParticipant now u r =
     r\<lparr>participants := filter (\<lambda>p. p_uid p \<noteq> u) (participants r),
       currentParticipants := length (filter (\<lambda>p. p_uid p \<noteq> u) (participants r)),
       lastActivity := now\<rparr>"

text \<open>
  \<open>RoomSchema.methods.updateParticipantSocket\<close>: the first participant with the uid
  gets the new socket id; nothing else is written.
\<close>

fun replaceSocket :: "string \<Rightarrow> string \<Rightarrow> participant list \<Rightarrow> participant list" where
  "replaceSocket u s [] = []"
| "replaceSocket u s (p # ps) =
     (if p_uid p = u then p\<lparr>socketId := Some s\<rparr> # ps else p # replaceSocket u s ps)"

definition updateParticipantSocket :: "string \<Rightarrow> string \<Rightarrow> room \<Rightarrow> room" where
  "updateParticipantSocket u s r = r\<lparr>participants := replaceSocket u s (participants r)\<rparr>"

text \<open>
  \<open>RoomSchema.statics.findByRoomId\<close>: \<open>findOne({ id: roomId })\<close>. The collection is
  keyed by \<open>id\<close> (a unique index), and the document found has the \<open>id\<close> asked for.
\<close>

definition findByRoomId :: "store \<Rightarrow> string \<Rightarrow> room option" where
  "findByRoomId db roomId =
     (case rooms db roomId of
        None \<Rightarrow> None
      | Some r \<Rightarrow> if rid r = roomId then Some r else None)"

text \<open>
  \<open>room.save()\<close> and \<open>Room.create\<close>: the document is written under its \<open>id\<close>. The
  store is taken to accept every write (a refused write raises into the handler's
  \<open>catch\<close>, which reports and leaves the stored documents as they were).
\<close>

definition save :: "room \<Rightarrow> store \<Rightarrow> store" where
  "save r db = db\<lparr>rooms := (rooms db)(rid r \<mapsto> r)\<rparr>"

section \<open>Message queries\<close>

text \<open>\<open>.sort({ createdAt: -1 })\<close>: newest first.\<close>

definition sortDesc :: "message list \<Rightarrow> message list" where
  "sortDesc ms = sort_key (\<lambda>m. - int (createdAt m)) ms"

text \<open>\<open>.limit(n)\<close>: at most \<open>n\<close> documents; the store reads a limit of 0 as no limit.\<close>

definition limitDocs :: "nat \<Rightarrow> 'a list \<Rightarrow> 'a list" where
  "limitDocs n xs = (if n = 0 then xs else take n xs)"

text \<open>\<open>MessageSchema.statics.findRecentMessages\<close>.\<close>

definition findRecentMessages :: "store \<Rightarrow> string \<Rightarrow> nat \<Rightarrow> message list" where
  "findRecentMessages db roomId limit =
     limitDocs limit
       (sortDesc (filter (\<lambda>m. m_roomId m = roomId \<and> \<not> isDeleted m) (messages db)))"

text \<open>
  The store's \<open>$regex\<close> match with option \<open>i\<close>, which is what
  \<open>searchMessages\<close> asks for, on the patterns made of ordinary characters and the
  dot: an ordinary character matches itself up to the case of ASCII letters, a dot
  matches any character but a line feed, and the pattern may match anywhere in the
  text. A pattern that contains any other character of the regular-expression syntax
  is outside this model, and \<open>parseRegex\<close> is \<open>None\<close> on it.
\<close>

datatype atom = Lit char | AnyChar

definition metaChars :: "char list" where
  "metaChars = [CHR 0x5C, CHR ''^'', CHR ''$'', CHR ''.'', CHR ''|'', CHR ''?'', CHR ''*'',
     CHR ''+'', CHR ''('', CHR '')'', CHR ''['', CHR '']'', CHR ''{'', CHR ''}'']"

fun parseRegex :: "string \<Rightarrow> atom list option" where
  "parseRegex [] = Some []"
| "parseRegex (c # cs) =
     (if c = CHR ''.'' then map_option ((#) AnyChar) (parseRegex cs)
      else if c \<in> set metaChars then None
      else map_option ((#) (Lit c)) (parseRegex cs))"

definition toLower :: "char \<Rightarrow> char" where
  "toLower c =
     (case map_of (zip ''ABCDEFGHIJKLMNOPQRSTUVWXYZ'' ''abcdefghijklmnopqrstuvwxyz'') c of
        None \<Rightarrow> c
      | Some l \<Rightarrow> l)"

fun matchAtom :: "atom \<Rightarrow> char \<Rightarrow> bool" where
  "matchAtom (Lit l) c = (toLower l = toLower c)"
| "matchAtom AnyChar c = (c \<noteq> CHR 0x0A)"

fun matchHere :: "atom list \<Rightarrow> string \<Rightarrow> bool" where
  "matchHere [] cs = True"
| "matchHere (a # as) [] = False"
| "matchHere (a # as) (c # cs) = (matchAtom a c \<and> matchHere as cs)"

fun regexSearch :: "atom list \<Rightarrow> string \<Rightarrow> bool" where
  "regexSearch as [] = matchHere as []"
| "regexSearch as (c # cs) = (matchHere as (c # cs) \<or> regexSearch as cs)"

text \<open>
  \<open>MessageSchema.statics.searchMessages\<close>: the room's messages that are not deleted
  and whose text matches \<open>searchTerm\<close> as a regular expression, newest first, limited.
  The controller always passes the limit it parsed from the request.
\<close>

definition searchMessages :: "store \<Rightarrow> string \<Rightarrow> string \<Rightarrow> nat \<Rightarrow> message list option" where
  "searchMessages d roomId searchTerm limit =
     (case parseRegex searchTerm of
        None \<Rightarrow> None
      | Some re \<Rightarrow>
          Some (limitDocs limit
            (sortDesc
               (filter (\<lambda>m. m_roomId m = roomId \<and> \<not> isDeleted m \<and> regexSearch re (m_text m))
                  (messages d)))))"

text \<open>
  The search as the specification words it: the text contains the query as a
  substring, letter case ignored; newest first; cut to the limit.
\<close>

definition containsCI :: "string \<Rightarrow> string \<Rightarrow> bool" where
  "containsCI q t = sublist (map toLower q) (map toLower t)"

definition specSearch :: "store \<Rightarrow> string \<Rightarrow> string \<Rightarrow> nat \<Rightarrow> message list" where
  "specSearch d roomId q limit =
     take limit
       (sortDesc
          (filter (\<lambda>m. m_roomId m = roomId \<and> \<not> isDeleted m \<and> containsCI q (m_text m))
             (messages d)))"

section \<open>Socket handlers\<close>

text \<open>
  Each handler is one atomic transition: it takes the caller's socket id, the
  caller's closure variables, the store and the clock reading, and returns the new
  closure variables, the new store and the emissions in program order.
\<close>

type_synonym outcome = "session \<times> store \<times> emission list"

text \<open>\<open>String.prototype.trim\<close>, on the ASCII white space.\<close>

definition isSpace :: "char \<Rightarrow> bool" where
  "isSpace c = (c \<in> set [CHR '' '', CHR 0x09, CHR 0x0A, CHR 0x0B, CHR 0x0C, CHR 0x0D])"

definition trim :: "string \<Rightarrow> string" where
  "trim s = rev (dropWhile isSpace (rev (dropWhile isSpace s)))"

text \<open>\<open>socket.on("authenticate")\<close>.\<close>

definition authenticate :: "session \<Rightarrow> user \<Rightarrow> session" where
  "authenticate s userData = s\<lparr>currentUser := Some userData\<rparr>"

text \<open>
  The payload of \<open>createRoom\<close>; an optional field is \<open>None\<close> when the client left it
  out.
\<close>

record roomData =
  rd_id :: "string option"
  rd_title :: string
  rd_description :: "string option"
  rd_admin :: user
  rd_category :: "string option"
  rd_tags :: "string list option"
  rd_isPublic :: "bool option"
  rd_maxParticipants :: "int option"

text \<open>\<open>x || d\<close> for an optional string and for an optional number.\<close>

definition orString :: "string option \<Rightarrow> string \<Rightarrow> string" where
  "orString x d = (case x of None \<Rightarrow> d | Some v \<Rightarrow> if v = [] then d else v)"

definition orNumber :: "int option \<Rightarrow> int \<Rightarrow> int" where
  "orNumber x d = (case x of None \<Rightarrow> d | Some v \<Rightarrow> if v = 0 then d else v)"

text \<open>
  \<open>socket.on("createRoom")\<close>. \<open>fresh\<close> is the generated
  \<open>room_<time>_<random>\<close> identifier, used when the client sent none.
  \<open>currentParticipants\<close> is not in \<open>newRoomData\<close> and takes the schema default 1.
\<close>

definition newRoomData :: "string \<Rightarrow> nat \<Rightarrow> string \<Rightarrow> roomData \<Rightarrow> room" where
  "newRoomData sid now roomId rd =
     \<lparr>rid = roomId,
      title = trim (rd_title rd),
      description = orString (rd_description rd) [],
      admin = rd_admin rd,
      participants =
        [\<lparr>p_uid = uid (rd_admin rd), p_displayName = displayName (rd_admin rd),
          p_username = username (rd_admin rd), p_avatar = avatar (rd_admin rd),
          joinedAt = now, socketId = Some sid\<rparr>],
      isLive = True,
      status = Live,
      streamKey = None,
      thumbnail = [],
      category = orString (rd_category rd) ''general'',
      tags = (case rd_tags rd of None \<Rightarrow> [] | Some ts \<Rightarrow> map trim ts),
      isPublic = (case rd_isPublic rd of None \<Rightarrow> True | Some b \<Rightarrow> b),
      maxParticipants = orNumber (rd_maxParticipants rd) 100,
      currentParticipants = 1,
      startedAt = now,
      endedAt = None,
      createdBy = sid,
      lastActivity = now\<rparr>"

definition createRoom :: "string \<Rightarrow> session \<Rightarrow> store \<Rightarrow> nat \<Rightarrow> string \<Rightarrow> roomData \<Rightarrow> outcome" where
  "createRoom sid s db now fresh rd =
     (let roomId = orString (rd_id rd) fresh in
      case findByRoomId db roomId of
        Some _ \<Rightarrow> (s, db, [(Caller, ErrorEv ''ROOM_ID_EXISTS'')])
      | None \<Rightarrow>
          (let newRoom = newRoomData sid now roomId rd in
           (s\<lparr>currentRoom := Some roomId\<rparr>, save newRoom db,
            [(Everyone, RoomsUpdatedCreated newRoom), (Caller, RoomCreated newRoom)])))"

text \<open>\<open>socket.on("joinRoom")\<close>: the checks in the handler's order.\<close>

definition participantData :: "string \<Rightarrow> nat \<Rightarrow> user \<Rightarrow> participant" where
  "participantData sid now u =
     \<lparr>p_uid = uid u, p_displayName = displayName u, p_username = username u,
      p_avatar = avatar u, joinedAt = now, socketId = Some sid\<rparr>"

definition joinRoom :: "string \<Rightarrow> session \<Rightarrow> store \<Rightarrow> nat \<Rightarrow> string \<Rightarrow> user \<Rightarrow> outcome" where
  "joinRoom sid s db now roomId u =
     (case findByRoomId db roomId of
        None \<Rightarrow> (s, db, [(Caller, ErrorEv ''ROOM_NOT_FOUND'')])
      | Some room \<Rightarrow>
          if \<not> isLive room \<or> status room \<noteq> Live
          then (s, db, [(Caller, ErrorEv ''ROOM_NOT_LIVE'')])
          else if int (currentParticipants room) \<ge> maxParticipants room
          then (s, db, [(Caller, ErrorEv ''ROOM_FULL'')])
          else
            (let room' =
               (case findParticipant (participants room) (uid u) of
                  Some _ \<Rightarrow> updateParticipantSocket (uid u) sid room
                | None \<Rightarrow> addParticipant now (participantData sid now u) room);
                 db' = save room' db;
                 recentMessages = findRecentMessages db' roomId 50
             in (s\<lparr>currentRoom := Some roomId, currentUser := Some u\<rparr>, db',
                 [(Caller, RoomUpdated room'),
                  (Caller, ExistingMessages (rev recentMessages)),
                  (Others roomId, UserJoined u),
                  (Others roomId,
                   RoomUpdatedBrief roomId (participants room') (currentParticipants room'))])))"

text \<open>
  \<open>socket.on("sendMessage")\<close>. \<open>mid\<close> is the generated \<open>msg_<time>_<random>\<close>
  identifier. The checks are: empty text, room found, sender among the participants.
\<close>

definition messageData :: "string \<Rightarrow> nat \<Rightarrow> string \<Rightarrow> string \<Rightarrow> string \<Rightarrow> user \<Rightarrow> message" where
  "messageData sid now mid roomId txt u =
     \<lparr>m_id = mid, m_roomId = roomId, m_text = trim txt, m_user = u,
      m_socketId = Some sid, messageType = TextMsg, isEdited = False,
      isDeleted = False, isPinned = False, createdAt = now\<rparr>"

definition sendMessage ::
  "string \<Rightarrow> session \<Rightarrow> store \<Rightarrow> nat \<Rightarrow> string \<Rightarrow> string \<Rightarrow> string \<Rightarrow> user \<Rightarrow> outcome" where
  "sendMessage sid s db now mid roomId txt u =
     (if txt = [] \<or> length (trim txt) = 0
      then (s, db, [(Caller, ErrorEv ''EMPTY_MESSAGE'')])
      else case findByRoomId db roomId of
        None \<Rightarrow> (s, db, [(Caller, ErrorEv ''ROOM_NOT_FOUND'')])
      | Some room \<Rightarrow>
          if \<not> list_ex (\<lambda>p. p_uid p = uid u) (participants room)
          then (s, db, [(Caller, ErrorEv ''NOT_IN_ROOM'')])
          else
            (let savedMessage = messageData sid now mid roomId txt u;
                 db1 = db\<lparr>messages := messages db @ [savedMessage]\<rparr>;
                 db2 = save (room\<lparr>lastActivity := now\<rparr>) db1
             in (s, db2, [(InRoom roomId, NewMessage savedMessage)])))"

text \<open>\<open>socket.on("leaveRoom")\<close>: no check but that the room is found.\<close>

definition leaveRoom :: "string \<Rightarrow> session \<Rightarrow> store \<Rightarrow> nat \<Rightarrow> string \<Rightarrow> user \<Rightarrow> outcome" where
  "leaveRoom sid s db now roomId u =
     (case findByRoomId db roomId of
        Some room \<Rightarrow>
          (let room' = removeParticipant now (uid u) room in
           (s\<lparr>currentRoom := None\<rparr>, save room' db,
            [(Others roomId, UserLeft u),
             (Others roomId,
              RoomUpdatedBrief roomId (participants room') (currentParticipants room'))]))
      | None \<Rightarrow> (s\<lparr>currentRoom := None\<rparr>, db, []))"

text \<open>
  \<open>socket.on("endStream")\<close>: the requester is the connection's \<open>currentUser\<close>
  (\<open>currentUser?.uid\<close> is \<open>undefined\<close>, so unequal to any uid, when there is none).
\<close>

definition endStream :: "string \<Rightarrow> session \<Rightarrow> store \<Rightarrow> nat \<Rightarrow> string \<Rightarrow> outcome" where
  "endStream sid s db now roomId =
     (case findByRoomId db roomId of
        None \<Rightarrow> (s, db, [(Caller, ErrorEv ''ROOM_NOT_FOUND'')])
      | Some room \<Rightarrow>
          if Some (uid (admin room)) \<noteq> map_option uid (currentUser s)
          then (s, db, [(Caller, ErrorEv ''UNAUTHORIZED'')])
          else
            (s, save (room\<lparr>isLive := False, status := Ended, endedAt := Some now\<rparr>) db,
             [(InRoom roomId, RoomDeleted roomId), (Everyone, RoomsUpdatedDeleted roomId)]))"

text \<open>
  \<open>socket.on("disconnect")\<close>: the cleanup runs when \<open>currentRoom && currentUser\<close>
  (an empty room id is falsy) and the room is found; the closure variables stay.
\<close>

definition disconnect :: "string \<Rightarrow> session \<Rightarrow> store \<Rightarrow> nat \<Rightarrow> outcome" where
  "disconnect sid s db now =
     (case (currentRoom s, currentUser s) of
        (Some cr, Some cu) \<Rightarrow>
          (if cr = [] then (s, db, [(Everyone, RoomsUpdatedDisconnected sid)])
           else case findByRoomId db cr of
             Some room \<Rightarrow>
               (let room' = removeParticipant now (uid cu) room in
                (s, save room' db,
                 [(Others cr,
                   UserLeftBrief (uid cu)
                     (if displayName cu = [] then ''Unknown User'' else displayName cu)),
                  (Others cr,
                   RoomUpdatedBrief cr (participants room') (currentParticipants room')),
                  (Everyone, RoomsUpdatedDisconnected sid)]))
           | None \<Rightarrow> (s, db, [(Everyone, RoomsUpdatedDisconnected sid)]))
      | _ \<Rightarrow> (s, db, [(Everyone, RoomsUpdatedDisconnected sid)]))"

section \<open>Runs of the server\<close>

text \<open>
  The server: every connection's closure variables, by socket id, and the store.
  An event names its socket and carries the clock reading at which it is handled;
  handlers run one at a time.
\<close>

record server =
  sessions :: "string \<Rightarrow> session"
  db :: store

datatype client_event =
    Authenticate user
  | CreateRoom string roomData
  | JoinRoom string user
  | SendMessage string string string user
  | LeaveRoom string user
  | EndStream string
  | Disconnect

definition initSession :: session where
  "initSession = \<lparr>currentUser = None, currentRoom = None\<rparr>"

definition initServer :: server where
  "initServer = \<lparr>sessions = (\<lambda>_. initSession), db = \<lparr>rooms = Map.empty, messages = []\<rparr>\<rparr>"

fun handle :: "string \<Rightarrow> session \<Rightarrow> store \<Rightarrow> nat \<Rightarrow> client_event \<Rightarrow> outcome" where
  "handle sid s d now (Authenticate u) = (authenticate s u, d, [])"
| "handle sid s d now (CreateRoom fresh rd) = createRoom sid s d now fresh rd"
| "handle sid s d now (JoinRoom roomId u) = joinRoom sid s d now roomId u"
| "handle sid s d now (SendMessage mid roomId txt u) = sendMessage sid s d now mid roomId txt u"
| "handle sid s d now (LeaveRoom roomId u) = leaveRoom sid s d now roomId u"
| "handle sid s d now (EndStream roomId) = endStream sid s d now roomId"
| "handle sid s d now Disconnect = disconnect sid s d now"

definition step :: "server \<Rightarrow> string \<times> nat \<times> client_event \<Rightarrow> server" where
  "step sv e =
     (case e of (sid, now, ev) \<Rightarrow>
        (case handle sid (sessions sv sid) (db sv) now ev of
           (s', d', _) \<Rightarrow> \<lparr>sessions = (sessions sv)(sid := s'), db = d'\<rparr>))"

definition run :: "server \<Rightarrow> (string \<times> nat \<times> client_event) list \<Rightarrow> server" where
  "run sv es = foldl step sv es"

section \<open>Observers and a worked scenario\<close>

text \<open>A property of every stored room.\<close>

definition all_rooms :: "(room \<Rightarrow> bool) \<Rightarrow> store \<Rightarrow> bool" where
  "all_rooms P d = (\<forall>k r. rooms d k = Some r \<longrightarrow> P r)"

text \<open>The error code a handler reported to its caller, if it reported one.\<close>

fun errorOf :: "emission list \<Rightarrow> string option" where
  "errorOf ((Caller, ErrorEv c) # _) = Some c"
| "errorOf _ = None"

text \<open>How many membership records of a room carry a uid.\<close>

definition uidCount :: "string \<Rightarrow> room \<Rightarrow> nat" where
  "uidCount u r = length (filter (\<lambda>p. p_uid p = u) (participants r))"

definition countConsistent :: "room \<Rightarrow> bool" where
  "countConsistent r = (currentParticipants r = length (participants r))"

definition uniqueUids :: "room \<Rightarrow> bool" where
  "uniqueUids r = distinct (map p_uid (participants r))"

text \<open>
  The scenario of the specification: Alice authenticates and creates room \<open>R1\<close> with
  capacity 2, Bob joins, Bob says "hi", Alice ends the stream.
\<close>

definition userA :: user where
  "userA = \<lparr>uid = ''A'', displayName = ''Alice'', username = ''alice'', avatar = []\<rparr>"

definition userB :: user where
  "userB = \<lparr>uid = ''B'', displayName = ''Bob'', username = ''bob'', avatar = []\<rparr>"

definition userC :: user where
  "userC = \<lparr>uid = ''C'', displayName = ''Carol'', username = ''carol'', avatar = []\<rparr>"

definition specR1 :: roomData where
  "specR1 = \<lparr>rd_id = Some ''R1'', rd_title = ''Demo'', rd_description = None,
     rd_admin = userA, rd_category = None, rd_tags = None, rd_isPublic = None,
     rd_maxParticipants = Some 2\<rparr>"

definition opened :: "(string \<times> nat \<times> client_event) list" where
  "opened = [(''sA'', 1, Authenticate userA), (''sA'', 2, CreateRoom ''room_2_x'' specR1)]"

definition filled :: "(string \<times> nat \<times> client_event) list" where
  "filled = opened @ [(''sB'', 3, JoinRoom ''R1'' userB)]"

definition chatted :: "(string \<times> nat \<times> client_event) list" where
  "chatted = filled @ [(''sB'', 4, SendMessage ''m4'' ''R1'' ''hi'' userB)]"

definition closed :: "(string \<times> nat \<times> client_event) list" where
  "closed = chatted @ [(''sA'', 5, EndStream ''R1'')]"

text \<open>The server after each stage, and room \<open>R1\<close> as stored at two of them.\<close>

definition full :: server where
  "full = run initServer filled"

definition talk :: server where
  "talk = run initServer chatted"

definition ended :: server where
  "ended = run initServer closed"

definition roomFull :: room where
  "roomFull =
     addParticipant 3 (participantData ''sB'' 3 userB) (newRoomData ''sA'' 2 ''R1'' specR1)"

definition roomTalk :: room where
  "roomTalk = roomFull\<lparr>lastActivity := 4\<rparr>"

text \<open>
  What the clients are shown of a room's membership in \<open>roomUpdated\<close>: the
  participants and the stored count.
\<close>

definition membership :: "store \<Rightarrow> string \<Rightarrow> (participant list \<times> nat) option" where
  "membership d k = map_option (\<lambda>r. (participants r, currentParticipants r)) (findByRoomId d k)"

text \<open>The room of that id is stored and has been ended.\<close>

definition isEnded :: "room \<Rightarrow> bool" where
  "isEnded r = (status r = Ended \<and> \<not> isLive r)"

definition roomEnded :: "store \<Rightarrow> string \<Rightarrow> bool" where
  "roomEnded d k = (case findByRoomId d k of None \<Rightarrow> False | Some r \<Rightarrow> isEnded r)"

section \<open>Basic facts\<close>

lemmas eval_defs = run_def step_def initServer_def initSession_def
  createRoom_def joinRoom_def authenticate_def sendMessage_def leaveRoom_def endStream_def
  disconnect_def findByRoomId_def save_def newRoomData_def messageData_def
  specR1_def userA_def userB_def userC_def orString_def orNumber_def trim_def isSpace_def
  addParticipant_def removeParticipant_def updateParticipantSocket_def
  findParticipant_def participantData_def Let_def
  opened_def filled_def chatted_def closed_def full_def talk_def ended_def
  roomFull_def roomTalk_def findRecentMessages_def limitDocs_def sortDesc_def

lemma findByRoomId_Some: "findByRoomId d k = Some r \<Longrightarrow> rooms d k = Some r \<and> rid r = k"
  by (auto simp: findByRoomId_def split: option.splits if_splits)

lemma findByRoomId_save:
  "findByRoomId (save r d) k = (if rid r = k then Some r else findByRoomId d k)"
  by (simp add: findByRoomId_def save_def)

lemma all_rooms_find: "all_rooms P d \<Longrightarrow> findByRoomId d k = Some r \<Longrightarrow> P r"
  by (auto simp: all_rooms_def dest: findByRoomId_Some)

lemma all_rooms_save: "all_rooms P d \<Longrightarrow> P r \<Longrightarrow> all_rooms P (save r d)"
  by (auto simp: all_rooms_def save_def)

lemma all_rooms_messages: "all_rooms P (d\<lparr>messages := ms\<rparr>) = all_rooms P d"
  by (simp add: all_rooms_def)

lemma all_rooms_init: "all_rooms P (db initServer)"
  by (simp add: all_rooms_def initServer_def)

text \<open>
  A property of rooms that a new room has and every write of the handlers keeps is
  kept by every handler, hence by every run.
\<close>

lemma handle_preserves:
  assumes new: "\<And>sid now k rd. P (newRoomData sid now k rd)"
    and add: "\<And>now p r. P r \<Longrightarrow> P (addParticipant now p r)"
    and rem: "\<And>now u r. P r \<Longrightarrow> P (removeParticipant now u r)"
    and upd: "\<And>u s r. P r \<Longrightarrow> P (updateParticipantSocket u s r)"
    and act: "\<And>now r. P r \<Longrightarrow> P (r\<lparr>lastActivity := now\<rparr>)"
    and fin: "\<And>now r. P r \<Longrightarrow> P (r\<lparr>isLive := False, status := Ended, endedAt := Some now\<rparr>)"
    and inv: "all_rooms P d"
  shows "all_rooms P (fst (snd (handle sid s d now ev)))"
proof (cases ev)
  case (Authenticate u)
  then show ?thesis using inv by simp
next
  case (CreateRoom fresh rd)
  then show ?thesis using inv new
    by (auto simp: createRoom_def Let_def all_rooms_save split: option.splits)
next
  case (JoinRoom roomId u)
  then show ?thesis using inv add upd
    by (auto simp: joinRoom_def Let_def split: option.splits
        intro!: all_rooms_save dest: all_rooms_find)
next
  case (SendMessage mid roomId body u)
  then show ?thesis using inv act
    by (auto simp: sendMessage_def Let_def all_rooms_messages split: option.splits
        intro!: all_rooms_save dest: all_rooms_find)
next
  case (LeaveRoom roomId u)
  then show ?thesis using inv rem
    by (auto simp: leaveRoom_def Let_def split: option.splits
        intro!: all_rooms_save dest: all_rooms_find)
next
  case (EndStream roomId)
  then show ?thesis using inv fin
    by (auto simp: endStream_def Let_def split: option.splits
        intro!: all_rooms_save dest: all_rooms_find)
next
  case Disconnect
  then show ?thesis using inv rem
    by (auto simp: disconnect_def Let_def split: option.splits
        intro!: all_rooms_save dest: all_rooms_find)
qed

lemma run_preserves:
  assumes new: "\<And>sid now k rd. P (newRoomData sid now k rd)"
    and add: "\<And>now p r. P r \<Longrightarrow> P (addParticipant now p r)"
    and rem: "\<And>now u r. P r \<Longrightarrow> P (removeParticipant now u r)"
    and upd: "\<And>u s r. P r \<Longrightarrow> P (updateParticipantSocket u s r)"
    and act: "\<And>now r. P r \<Longrightarrow> P (r\<lparr>lastActivity := now\<rparr>)"
    and fin: "\<And>now r. P r \<Longrightarrow> P (r\<lparr>isLive := False, status := Ended, endedAt := Some now\<rparr>)"
  shows "all_rooms P (db sv) \<Longrightarrow> all_rooms P (db (run sv es))"
proof (induction es arbitrary: sv)
  case Nil
  then show ?case by (simp add: run_def)
next
  case (Cons e es)
  obtain sid now ev where e: "e = (sid, now, ev)" by (cases e)
  have "all_rooms P (fst (snd (handle sid (sessions sv sid) (db sv) now ev)))"
    using handle_preserves [of P, OF new add rem upd act fin Cons.prems] .
  then have "all_rooms P (db (step sv e))"
    by (cases "handle sid (sessions sv sid) (db sv) now ev") (simp add: step_def e)
  then have "all_rooms P (db (run (step sv e) es))" by (rule Cons.IH)
  then show ?case by (simp add: run_def)
qed

lemma length_replaceSocket: "length (replaceSocket u s ps) = length ps"
  by (induction ps) auto

lemma uids_replaceSocket: "map p_uid (replaceSocket u s ps) = map p_uid ps"
  by (induction ps) auto

lemma findParticipant_None: "findParticipant ps u = None \<longleftrightarrow> u \<notin> set (map p_uid ps)"
  by (auto simp: findParticipant_def find_None_iff)

lemma findParticipant_replaceSocket:
  "findParticipant ps u = Some p \<Longrightarrow>
   findParticipant (replaceSocket u s ps) u = Some (p\<lparr>socketId := Some s\<rparr>)"
  by (induction ps) (auto simp: findParticipant_def)

lemma opened_room:
  "findByRoomId (db (run initServer opened)) ''R1'' = Some (newRoomData ''sA'' 2 ''R1'' specR1)"
  by (simp add: eval_defs)

section \<open>The stored count\<close>

text \<open>
  Claim C5. In every state the server reaches from its start by the socket events
  (authenticate, createRoom, joinRoom with its rejoin branch, sendMessage, leaveRoom,
  endStream, disconnect, from any sockets in any order), every stored room's
  \<open>currentParticipants\<close> is the length of its \<open>participants\<close> list.
\<close>

theorem currentParticipants_is_length:
  assumes "rooms (db (run initServer es)) k = Some r"
  shows "currentParticipants r = length (participants r)"
proof -
  have "all_rooms countConsistent (db (run initServer es))"
  proof (rule run_preserves)
    show "all_rooms countConsistent (db initServer)" by (rule all_rooms_init)
  qed (simp_all add: countConsistent_def newRoomData_def addParticipant_def
        removeParticipant_def updateParticipantSocket_def length_replaceSocket
        split: option.splits)
  with assms show ?thesis by (simp add: all_rooms_def countConsistent_def)
qed

theorem currentParticipants_is_length_witness:
  "rooms (db full) ''R1'' = Some roomFull \<and>
   currentParticipants roomFull = 2 \<and> length (participants roomFull) = 2"
proof -
  have h: "rooms (db full) ''R1'' = Some roomFull"
    by (simp add: eval_defs)
  have "length (participants roomFull) = 2"
    by (simp add: eval_defs)
  with h currentParticipants_is_length [of "filled" "''R1''" roomFull] show ?thesis
    by (simp add: full_def)
qed

section \<open>One membership record per uid\<close>

lemma uniqueUids_add: "uniqueUids r \<Longrightarrow> uniqueUids (addParticipant now p r)"
  by (auto simp: uniqueUids_def addParticipant_def findParticipant_None split: option.splits)

lemma uniqueUids_remove: "uniqueUids r \<Longrightarrow> uniqueUids (removeParticipant now u r)"
  by (simp add: uniqueUids_def removeParticipant_def distinct_map_filter)

lemma uniqueUids_update: "uniqueUids r \<Longrightarrow> uniqueUids (updateParticipantSocket u s r)"
  by (simp add: uniqueUids_def updateParticipantSocket_def uids_replaceSocket)

lemma uniqueUids_run: "all_rooms uniqueUids (db (run initServer es))"
proof (rule run_preserves)
  show "all_rooms uniqueUids (db initServer)" by (rule all_rooms_init)
qed (simp_all add: uniqueUids_add uniqueUids_remove uniqueUids_update,
     simp_all add: uniqueUids_def newRoomData_def)

lemma distinct_count_le1: "distinct (map f xs) \<Longrightarrow> length (filter (\<lambda>x. f x = a) xs) \<le> 1"
  by (induction xs) (auto simp: filter_empty_conv image_iff)

lemma uidCount_pos_find: "0 < uidCount u r \<Longrightarrow> \<exists>p. findParticipant (participants r) u = Some p"
proof -
  assume "0 < uidCount u r"
  then have "filter (\<lambda>p. p_uid p = u) (participants r) \<noteq> []"
    by (auto simp: uidCount_def)
  then have "u \<in> set (map p_uid (participants r))"
    by (auto simp: filter_empty_conv)
  then have "findParticipant (participants r) u \<noteq> None"
    by (simp add: findParticipant_None)
  then show ?thesis by auto
qed

text \<open>
  A join by a uid that is already a member, whatever its outcome: the uids of the
  participants and the stored count are as before, and when no error is reported the
  member's socket id is the caller's.
\<close>

lemma rejoin_effect:
  assumes f: "findByRoomId d k = Some r"
    and m: "findParticipant (participants r) (uid v) = Some p"
  shows "\<exists>r'. findByRoomId (fst (snd (joinRoom sid s d now k v))) k = Some r' \<and>
           map p_uid (participants r') = map p_uid (participants r) \<and>
           currentParticipants r' = currentParticipants r \<and>
           (errorOf (snd (snd (joinRoom sid s d now k v))) = None \<longrightarrow>
              map_option socketId (findParticipant (participants r') (uid v)) = Some (Some sid))"
proof -
  have k: "rid r = k" using f by (simp add: findByRoomId_Some)
  show ?thesis
  proof (cases "\<not> isLive r \<or> status r \<noteq> Live \<or> maxParticipants r \<le> int (currentParticipants r)")
    case True
    then have "joinRoom sid s d now k v = (s, d, [(Caller, ErrorEv ''ROOM_NOT_LIVE'')])
             \<or> joinRoom sid s d now k v = (s, d, [(Caller, ErrorEv ''ROOM_FULL'')])"
      using f by (auto simp: joinRoom_def)
    then show ?thesis using f by auto
  next
    case False
    then have j: "joinRoom sid s d now k v =
        (s\<lparr>currentRoom := Some k, currentUser := Some v\<rparr>,
         save (updateParticipantSocket (uid v) sid r) d,
         [(Caller, RoomUpdated (updateParticipantSocket (uid v) sid r)),
          (Caller, ExistingMessages
             (rev (findRecentMessages (save (updateParticipantSocket (uid v) sid r) d) k 50))),
          (Others k, UserJoined v),
          (Others k, RoomUpdatedBrief k (participants (updateParticipantSocket (uid v) sid r))
             (currentParticipants (updateParticipantSocket (uid v) sid r)))])"
      using f m by (simp add: joinRoom_def Let_def)
    have "findByRoomId (save (updateParticipantSocket (uid v) sid r) d) k
            = Some (updateParticipantSocket (uid v) sid r)"
      using k by (simp add: findByRoomId_save updateParticipantSocket_def)
    then show ?thesis unfolding j using m
      by (simp add: updateParticipantSocket_def uids_replaceSocket findParticipant_replaceSocket)
  qed
qed

text \<open>
  After any sequence of events, a room found in the store holds each uid at most
  once. A join by a uid that is already a member leaves the uids of the participants
  and the count as they were, appending nothing; when the join is not refused, the
  member's socket id becomes the caller's.
\<close>

lemma uid_at_most_once:
  assumes "findByRoomId (db (run initServer es)) k = Some r"
  shows "uidCount u r \<le> 1 \<and>
         (uidCount (uid v) r = 1 \<longrightarrow>
           (\<exists>r'. findByRoomId (fst (snd (joinRoom sid s (db (run initServer es)) now k v))) k
                    = Some r' \<and>
                 map p_uid (participants r') = map p_uid (participants r) \<and>
                 currentParticipants r' = currentParticipants r \<and>
                 (errorOf (snd (snd (joinRoom sid s (db (run initServer es)) now k v))) = None \<longrightarrow>
                    map_option socketId (findParticipant (participants r') (uid v))
                      = Some (Some sid))))"
proof (intro conjI impI)
  have "uniqueUids r"
    using uniqueUids_run [of es] assms by (rule all_rooms_find)
  then show "uidCount u r \<le> 1"
    using distinct_count_le1 [of p_uid "participants r" u]
    by (simp add: uniqueUids_def uidCount_def)
next
  assume "uidCount (uid v) r = 1"
  then obtain p where "findParticipant (participants r) (uid v) = Some p"
    using uidCount_pos_find [of "uid v" r] by auto
  with assms show "\<exists>r'. findByRoomId (fst (snd (joinRoom sid s (db (run initServer es)) now k v))) k
                    = Some r' \<and>
                 map p_uid (participants r') = map p_uid (participants r) \<and>
                 currentParticipants r' = currentParticipants r \<and>
                 (errorOf (snd (snd (joinRoom sid s (db (run initServer es)) now k v))) = None \<longrightarrow>
                    map_option socketId (findParticipant (participants r') (uid v))
                      = Some (Some sid))"
    by (rule rejoin_effect)
qed

section \<open>Facts about the scenario\<close>

lemma full_room: "findByRoomId (db full) ''R1'' = Some roomFull"
  by (simp add: eval_defs)

lemma talk_room: "findByRoomId (db talk) ''R1'' = Some roomTalk"
  by (simp add: eval_defs)

lemma talk_sessions:
  "sessions talk ''sA'' = \<lparr>currentUser = Some userA, currentRoom = Some ''R1''\<rparr>"
  "sessions talk ''sB'' = \<lparr>currentUser = Some userB, currentRoom = Some ''R1''\<rparr>"
  by (simp_all add: eval_defs)

lemma ended_step:
  "db ended = fst (snd (endStream ''sA'' (sessions talk ''sA'') (db talk) 5 ''R1''))"
  by (simp add: eval_defs)

section \<open>Messages to a room that has ended\<close>

text \<open>
  Claim C1 (the handler at the input where it departs from the claim). Room \<open>R1\<close>
  has been ended by its admin, so its status is \<open>ended\<close> and \<open>isLive\<close> is false;
  Bob, still recorded as a participant, sends a message. No error is reported: the
  message is broadcast to the room as \<open>newMessage\<close> and appended to the stored
  messages.
\<close>

theorem sendMessage_after_endStream:
  "map_option status (findByRoomId (db ended) ''R1'') = Some Ended \<and>
   map_option isLive (findByRoomId (db ended) ''R1'') = Some False \<and>
   snd (snd (sendMessage ''sB'' (sessions ended ''sB'') (db ended) 6 ''m6'' ''R1'' ''again'' userB))
     = [(InRoom ''R1'', NewMessage (messageData ''sB'' 6 ''m6'' ''R1'' ''again'' userB))] \<and>
   messages (fst (snd (sendMessage ''sB'' (sessions ended ''sB'') (db ended) 6 ''m6'' ''R1''
                         ''again'' userB)))
     = messages (db ended) @ [messageData ''sB'' 6 ''m6'' ''R1'' ''again'' userB]"
  by (simp add: eval_defs)

section \<open>Joining a room at capacity\<close>

text \<open>
  The guard as the handler has it: on a live room whose stored count has reached
  \<open>maxParticipants\<close> a join is refused with \<open>ROOM_FULL\<close> before the uid is
  looked up among the participants, and nothing is written. For a uid that is not a
  member this is the refusal the capacity calls for.
\<close>

lemma capacity_guard:
  assumes "findByRoomId d k = Some r" and "isLive r" and "status r = Live"
    and "maxParticipants r \<le> int (currentParticipants r)"
  shows "joinRoom sid s d now k u = (s, d, [(Caller, ErrorEv ''ROOM_FULL'')])"
  using assms by (simp add: joinRoom_def)

text \<open>
  Claim C2 (the handler at the input where it departs from the claim). Room \<open>R1\<close>
  is live with participants A and B, count 2 and capacity 2. Carol, not a member, is
  refused with \<open>ROOM_FULL\<close> and the store is unchanged, as the claim says. Bob,
  already a member, joins from a new socket: the claim has this join succeed by
  replacing his channel handle, and the handler refuses it with \<open>ROOM_FULL\<close>, the
  store and his membership record staying as they were. The branch that serves a
  member's rejoin comes after the capacity guard and is never reached at capacity.
\<close>

theorem rejoin_at_capacity_refused:
  "map_option (\<lambda>r. (map p_uid (participants r), currentParticipants r, maxParticipants r, status r))
      (findByRoomId (db full) ''R1'') = Some ([''A'', ''B''], 2, 2, Live) \<and>
   joinRoom ''sC'' initSession (db full) 6 ''R1'' userC
     = (initSession, db full, [(Caller, ErrorEv ''ROOM_FULL'')]) \<and>
   joinRoom ''sB2'' initSession (db full) 6 ''R1'' userB
     = (initSession, db full, [(Caller, ErrorEv ''ROOM_FULL'')])"
  by (simp add: eval_defs)

theorem rejoin_at_capacity_refused_witness:
  "errorOf (snd (snd (joinRoom ''sC'' initSession (db full) 6 ''R1'' userC))) = Some ''ROOM_FULL'' \<and>
   errorOf (snd (snd (joinRoom ''sB2'' initSession (db full) 6 ''R1'' userB))) = Some ''ROOM_FULL'' \<and>
   fst (snd (joinRoom ''sB2'' initSession (db full) 6 ''R1'' userB)) = db full"
  using rejoin_at_capacity_refused by simp

text \<open>
  Claim C3 (the handler at the input where it departs from the claim). That no uid
  is ever held twice is \<open>uid_at_most_once\<close> above. The claim also has every join
  by a member replace the member's channel handle. In the live room \<open>R1\<close> at
  capacity, Alice is a member with socket \<open>sA\<close>; her join from socket \<open>sA2\<close> is
  refused with \<open>ROOM_FULL\<close> and her stored socket id is still \<open>sA\<close>.
\<close>

theorem member_join_at_capacity_keeps_handle:
  "map_option (\<lambda>r. (isLive r, status r)) (findByRoomId (db full) ''R1'') = Some (True, Live) \<and>
   uidCount ''A'' roomFull = 1 \<and>
   map_option socketId (findParticipant (participants roomFull) ''A'') = Some (Some ''sA'') \<and>
   errorOf (snd (snd (joinRoom ''sA2'' initSession (db full) 6 ''R1'' userA)))
     = Some ''ROOM_FULL'' \<and>
   map_option (\<lambda>r. map_option socketId (findParticipant (participants r) ''A''))
     (findByRoomId (fst (snd (joinRoom ''sA2'' initSession (db full) 6 ''R1'' userA))) ''R1'')
     = Some (Some (Some ''sA''))"
  by (simp add: uidCount_def eval_defs)

theorem member_join_at_capacity_keeps_handle_witness:
  "errorOf (snd (snd (joinRoom ''sA2'' initSession (db full) 6 ''R1'' userA)))
     = Some ''ROOM_FULL'' \<and>
   uidCount ''A'' roomFull = 1"
  using member_join_at_capacity_keeps_handle by simp

section \<open>The activity stamp of a join\<close>

text \<open>
  Against claim C7 as stated: Alice, the only participant of \<open>R1\<close> (capacity 2,
  last activity at time 2), joins again at time 6 from a new socket. The join is
  accepted and the stored \<open>lastActivity\<close> is still 2.
\<close>

theorem rejoin_keeps_lastActivity:
  "map_option lastActivity (findByRoomId (db (run initServer opened)) ''R1'') = Some 2 \<and>
   errorOf (snd (snd (joinRoom ''sA2'' initSession (db (run initServer opened)) 6 ''R1'' userA)))
     = None \<and>
   map_option lastActivity
     (findByRoomId
        (fst (snd (joinRoom ''sA2'' initSession (db (run initServer opened)) 6 ''R1'' userA)))
        ''R1'')
     = Some 2"
  by (simp add: eval_defs)

lemma replaceSocket_split:
  "findParticipant ps u = Some p \<Longrightarrow>
   \<exists>ps1 ps2. ps = ps1 @ p # ps2 \<and> p_uid p = u \<and> u \<notin> p_uid ` set ps1 \<and>
     replaceSocket u s ps = ps1 @ p\<lparr>socketId := Some s\<rparr> # ps2"
proof (induction ps)
  case Nil
  then show ?case by (simp add: findParticipant_def)
next
  case (Cons q qs)
  show ?case
  proof (cases "p_uid q = u")
    case True
    then have "q = p" using Cons.prems by (simp add: findParticipant_def)
    then show ?thesis using True by (intro exI [of _ "[]"] exI [of _ qs]) simp
  next
    case False
    then have "findParticipant qs u = Some p" using Cons.prems by (simp add: findParticipant_def)
    then obtain ps1 ps2 where h: "qs = ps1 @ p # ps2" "p_uid p = u" "u \<notin> p_uid ` set ps1"
      "replaceSocket u s qs = ps1 @ p\<lparr>socketId := Some s\<rparr> # ps2"
      using Cons.IH by blast
    show ?thesis using h False
      by (intro exI [of _ "q # ps1"] exI [of _ ps2]) auto
  qed
qed

text \<open>
  Claim C7, amended. A join that is accepted (no error reported) by a uid that was
  not yet a member appends the new membership record and stamps \<open>lastActivity\<close>
  with the time of the join. An accepted join by a uid that was already a member
  replaces only the channel handle: the stored room is the room as it was with the
  socket id of that uid's (first) membership record set to the caller's, every other
  record and every other field, \<open>lastActivity\<close> among them, as before.
\<close>

theorem join_lastActivity:
  assumes f: "findByRoomId d k = Some r"
    and ok: "errorOf (snd (snd (joinRoom sid s d now k u))) = None"
  shows "\<exists>r'. findByRoomId (fst (snd (joinRoom sid s d now k u))) k = Some r' \<and>
           (if findParticipant (participants r) (uid u) = None
            then lastActivity r' = now \<and>
                 participants r' = participants r @
                   [\<lparr>p_uid = uid u, p_displayName = displayName u, p_username = username u,
                     p_avatar = avatar u, joinedAt = now, socketId = Some sid\<rparr>]
            else lastActivity r' = lastActivity r \<and>
                 (\<exists>ps1 p ps2. participants r = ps1 @ p # ps2 \<and> p_uid p = uid u \<and>
                    uid u \<notin> p_uid ` set ps1 \<and>
                    r' = r\<lparr>participants := ps1 @ p\<lparr>socketId := Some sid\<rparr> # ps2\<rparr>))"
proof -
  have k: "rid r = k" using f by (simp add: findByRoomId_Some)
  have acc: "isLive r" "status r = Live" "\<not> maxParticipants r \<le> int (currentParticipants r)"
    using f ok by (auto simp: joinRoom_def split: if_splits)
  show ?thesis
  proof (cases "findParticipant (participants r) (uid u)")
    case None
    then show ?thesis using f acc k
      by (simp add: joinRoom_def Let_def findByRoomId_save addParticipant_def participantData_def)
  next
    case (Some p)
    from replaceSocket_split [OF Some, of sid]
    obtain ps1 ps2 where h: "participants r = ps1 @ p # ps2" "p_uid p = uid u"
      "uid u \<notin> p_uid ` set ps1"
      "replaceSocket (uid u) sid (participants r) = ps1 @ p\<lparr>socketId := Some sid\<rparr> # ps2"
      by blast
    have j: "findByRoomId (fst (snd (joinRoom sid s d now k u))) k
               = Some (r\<lparr>participants := ps1 @ p\<lparr>socketId := Some sid\<rparr> # ps2\<rparr>)"
      using f acc k Some h(4)
      by (simp add: joinRoom_def Let_def findByRoomId_save updateParticipantSocket_def)
    show ?thesis
      unfolding j using Some h(1,2,3) by auto
  qed
qed

theorem join_lastActivity_witness:
  "findByRoomId (db (run initServer opened)) ''R1'' = Some (newRoomData ''sA'' 2 ''R1'' specR1) \<and>
   (\<exists>r'. findByRoomId
            (fst (snd (joinRoom ''sB'' initSession (db (run initServer opened)) 3 ''R1'' userB)))
            ''R1'' = Some r' \<and> lastActivity r' = 3) \<and>
   (\<exists>r'. findByRoomId
            (fst (snd (joinRoom ''sA2'' initSession (db (run initServer opened)) 6 ''R1'' userA)))
            ''R1'' = Some r' \<and> lastActivity r' = 2 \<and>
          r' = (newRoomData ''sA'' 2 ''R1'' specR1)
                 \<lparr>participants := [(participantData ''sA'' 2 userA)\<lparr>socketId := Some ''sA2''\<rparr>]\<rparr>)"
proof -
  have e1: "errorOf (snd (snd (joinRoom ''sB'' initSession (db (run initServer opened)) 3
              ''R1'' userB))) = None"
    by (simp add: eval_defs)
  have e2: "errorOf (snd (snd (joinRoom ''sA2'' initSession (db (run initServer opened)) 6
              ''R1'' userA))) = None"
    by (simp add: eval_defs)
  have m: "findParticipant (participants (newRoomData ''sA'' 2 ''R1'' specR1)) (uid userB) = None"
    "findParticipant (participants (newRoomData ''sA'' 2 ''R1'' specR1)) (uid userA) \<noteq> None"
    "lastActivity (newRoomData ''sA'' 2 ''R1'' specR1) = 2"
    "participants (newRoomData ''sA'' 2 ''R1'' specR1) = [participantData ''sA'' 2 userA]"
    by (simp_all add: eval_defs)
  have 1: "\<exists>r'. findByRoomId
            (fst (snd (joinRoom ''sB'' initSession (db (run initServer opened)) 3 ''R1'' userB)))
            ''R1'' = Some r' \<and> lastActivity r' = 3"
    using join_lastActivity [OF opened_room e1] m(1) by auto
  from join_lastActivity [OF opened_room e2] m(2,3)
  obtain r' ps1 p ps2 where r':
    "findByRoomId
       (fst (snd (joinRoom ''sA2'' initSession (db (run initServer opened)) 6 ''R1'' userA)))
       ''R1'' = Some r'"
    "lastActivity r' = 2"
    "participants (newRoomData ''sA'' 2 ''R1'' specR1) = ps1 @ p # ps2"
    "r' = (newRoomData ''sA'' 2 ''R1'' specR1)
            \<lparr>participants := ps1 @ p\<lparr>socketId := Some ''sA2''\<rparr> # ps2\<rparr>"
    by auto
  from r'(3) have "ps1 = [] \<and> p = participantData ''sA'' 2 userA \<and> ps2 = []"
    unfolding m(4) by (simp add: Cons_eq_append_conv)
  with r' have 2: "\<exists>r'. findByRoomId
            (fst (snd (joinRoom ''sA2'' initSession (db (run initServer opened)) 6 ''R1'' userA)))
            ''R1'' = Some r' \<and> lastActivity r' = 2 \<and>
          r' = (newRoomData ''sA'' 2 ''R1'' specR1)
                 \<lparr>participants := [(participantData ''sA'' 2 userA)\<lparr>socketId := Some ''sA2''\<rparr>]\<rparr>"
    by (intro exI [of _ r']) simp
  show ?thesis using opened_room 1 2 by blast
qed

section \<open>Ending a stream\<close>

lemma roomEnded_save:
  "roomEnded d k \<Longrightarrow> (rid r = k \<Longrightarrow> isEnded r) \<Longrightarrow> roomEnded (save r d) k"
  by (auto simp: roomEnded_def findByRoomId_save split: option.splits)

lemma roomEnded_messages: "roomEnded (d\<lparr>messages := ms\<rparr>) k = roomEnded d k"
  by (simp add: roomEnded_def findByRoomId_def)

lemma roomEnded_found:
  "roomEnded d k \<Longrightarrow> findByRoomId d k' = Some r \<Longrightarrow> rid r = k \<Longrightarrow> isEnded r"
proof -
  assume e: "roomEnded d k" and f: "findByRoomId d k' = Some r" and k: "rid r = k"
  have "k' = k" using findByRoomId_Some [OF f] k by simp
  then show "isEnded r" using e f by (simp add: roomEnded_def)
qed

text \<open>No handler makes an ended room live again, and none removes it.\<close>

lemma handle_keeps_ended:
  assumes e: "roomEnded d k"
  shows "roomEnded (fst (snd (handle sid s d now ev))) k"
proof (cases ev)
  case (Authenticate u)
  then show ?thesis using e by simp
next
  case (CreateRoom fresh rd)
  show ?thesis
  proof (cases "findByRoomId d (orString (rd_id rd) fresh)")
    case None
    then have "orString (rd_id rd) fresh \<noteq> k" using e by (auto simp: roomEnded_def)
    then show ?thesis using CreateRoom None e
      by (auto simp: createRoom_def Let_def newRoomData_def intro!: roomEnded_save)
  next
    case (Some a)
    then show ?thesis using CreateRoom e by (simp add: createRoom_def)
  qed
next
  case (JoinRoom roomId u)
  then show ?thesis using e
    by (auto simp: joinRoom_def Let_def isEnded_def addParticipant_def updateParticipantSocket_def
        split: option.splits intro!: roomEnded_save dest: roomEnded_found)
next
  case (SendMessage mid roomId body u)
  then show ?thesis using e
    by (auto simp: sendMessage_def Let_def isEnded_def roomEnded_messages
        split: option.splits intro!: roomEnded_save dest: roomEnded_found)
next
  case (LeaveRoom roomId u)
  then show ?thesis using e
    by (auto simp: leaveRoom_def Let_def isEnded_def removeParticipant_def
        split: option.splits intro!: roomEnded_save dest: roomEnded_found)
next
  case (EndStream roomId)
  then show ?thesis using e
    by (auto simp: endStream_def Let_def isEnded_def
        split: option.splits intro!: roomEnded_save dest: roomEnded_found)
next
  case Disconnect
  then show ?thesis using e
    by (auto simp: disconnect_def Let_def isEnded_def removeParticipant_def
        split: option.splits intro!: roomEnded_save dest: roomEnded_found)
qed

lemma run_keeps_ended: "roomEnded (db sv) k \<Longrightarrow> roomEnded (db (run sv es)) k"
proof (induction es arbitrary: sv)
  case Nil
  then show ?case by (simp add: run_def)
next
  case (Cons e es)
  obtain sid now ev where e: "e = (sid, now, ev)" by (cases e)
  have "roomEnded (fst (snd (handle sid (sessions sv sid) (db sv) now ev))) k"
    using Cons.prems by (rule handle_keeps_ended)
  then have "roomEnded (db (step sv e)) k"
    by (cases "handle sid (sessions sv sid) (db sv) now ev") (simp add: step_def e)
  then have "roomEnded (db (run (step sv e) es)) k" by (rule Cons.IH)
  then show ?case by (simp add: run_def)
qed

lemma join_ended_refused:
  "roomEnded d k \<Longrightarrow> joinRoom sid s d now k u = (s, d, [(Caller, ErrorEv ''ROOM_NOT_LIVE'')])"
  by (auto simp: roomEnded_def isEnded_def joinRoom_def split: option.splits)

lemma leave_found:
  "findByRoomId d k = Some r \<Longrightarrow>
   errorOf (snd (snd (leaveRoom sid s d now k u))) = None \<and>
   findByRoomId (fst (snd (leaveRoom sid s d now k u))) k = Some (removeParticipant now (uid u) r)"
  by (auto simp: leaveRoom_def Let_def findByRoomId_save removeParticipant_def
      dest: findByRoomId_Some)

text \<open>
  Against claim C4 as stated: after the admin has ended \<open>R1\<close>, Bob's \<open>leaveRoom\<close>
  on it is carried out: no error is reported and Bob is removed from the stored
  participants.
\<close>

theorem leave_after_endStream_succeeds:
  "map_option status (findByRoomId (db ended) ''R1'') = Some Ended \<and>
   map_option (map p_uid \<circ> participants) (findByRoomId (db ended) ''R1'') = Some [''A'', ''B''] \<and>
   errorOf (snd (snd (leaveRoom ''sB'' (sessions ended ''sB'') (db ended) 7 ''R1'' userB))) = None \<and>
   map_option (map p_uid \<circ> participants)
     (findByRoomId (fst (snd (leaveRoom ''sB'' (sessions ended ''sB'') (db ended) 7 ''R1'' userB)))
        ''R1'')
     = Some [''A'']"
  by (simp add: eval_defs)

text \<open>
  Claim C4, amended. On a stored room, \<open>endStream\<close> from a connection whose current
  user is absent or has a uid other than the admin's is refused with \<open>UNAUTHORIZED\<close>
  and changes nothing, so a live room stays live. From a connection whose current
  user has the admin's uid it stores the room with \<open>isLive\<close> false, status \<open>ended\<close>
  and \<open>endedAt\<close> the time of the call. From then on, after any further events, the
  room is still stored as ended and every join on it is refused with
  \<open>ROOM_NOT_LIVE\<close> without a change; a leave on it is still carried out, removing
  the uid from the participants. (What a send does on the ended room is not part of
  this statement.)
\<close>

theorem endStream_admin_only:
  assumes f: "findByRoomId d k = Some r"
  shows "(map_option uid (currentUser s) \<noteq> Some (uid (admin r)) \<longrightarrow>
            endStream sid s d now k = (s, d, [(Caller, ErrorEv ''UNAUTHORIZED'')])) \<and>
         (map_option uid (currentUser s) = Some (uid (admin r)) \<longrightarrow>
            findByRoomId (fst (snd (endStream sid s d now k))) k
              = Some (r\<lparr>isLive := False, status := Ended, endedAt := Some now\<rparr>) \<and>
            (\<forall>sv es sid' s' now' u.
               db sv = fst (snd (endStream sid s d now k)) \<longrightarrow>
               (\<exists>r'. findByRoomId (db (run sv es)) k = Some r' \<and>
                  status r' = Ended \<and> \<not> isLive r' \<and>
                  joinRoom sid' s' (db (run sv es)) now' k u
                    = (s', db (run sv es), [(Caller, ErrorEv ''ROOM_NOT_LIVE'')]) \<and>
                  errorOf (snd (snd (leaveRoom sid' s' (db (run sv es)) now' k u))) = None \<and>
                  findByRoomId (fst (snd (leaveRoom sid' s' (db (run sv es)) now' k u))) k
                    = Some (removeParticipant now' (uid u) r'))))"
proof (intro conjI impI allI)
  assume "map_option uid (currentUser s) \<noteq> Some (uid (admin r))"
  then have "Some (uid (admin r)) \<noteq> map_option uid (currentUser s)" by (rule not_sym)
  then show "endStream sid s d now k = (s, d, [(Caller, ErrorEv ''UNAUTHORIZED'')])"
    using f by (simp add: endStream_def)
next
  assume a: "map_option uid (currentUser s) = Some (uid (admin r))"
  have k: "rid r = k" using f by (simp add: findByRoomId_Some)
  have st: "fst (snd (endStream sid s d now k))
              = save (r\<lparr>isLive := False, status := Ended, endedAt := Some now\<rparr>) d"
    using f a [symmetric] by (simp add: endStream_def)
  show fd: "findByRoomId (fst (snd (endStream sid s d now k))) k
          = Some (r\<lparr>isLive := False, status := Ended, endedAt := Some now\<rparr>)"
    unfolding st using k by (simp add: findByRoomId_save)
  fix sv :: server and es :: "(string \<times> nat \<times> client_event) list"
    and sid' :: string and s' :: session and now' :: nat and u :: user
  assume d: "db sv = fst (snd (endStream sid s d now k))"
  have "roomEnded (db sv) k"
    unfolding d using fd by (simp add: roomEnded_def isEnded_def)
  then have e: "roomEnded (db (run sv es)) k" by (rule run_keeps_ended)
  then obtain r' where r': "findByRoomId (db (run sv es)) k = Some r'" "isEnded r'"
    by (auto simp: roomEnded_def split: option.splits)
  show "\<exists>r'. findByRoomId (db (run sv es)) k = Some r' \<and> status r' = Ended \<and> \<not> isLive r' \<and>
          joinRoom sid' s' (db (run sv es)) now' k u
            = (s', db (run sv es), [(Caller, ErrorEv ''ROOM_NOT_LIVE'')]) \<and>
          errorOf (snd (snd (leaveRoom sid' s' (db (run sv es)) now' k u))) = None \<and>
          findByRoomId (fst (snd (leaveRoom sid' s' (db (run sv es)) now' k u))) k
            = Some (removeParticipant now' (uid u) r')"
    using r' join_ended_refused [OF e] leave_found [OF r'(1)]
    by (intro exI [of _ r']) (simp add: isEnded_def)
qed

theorem endStream_admin_only_witness:
  "findByRoomId (db talk) ''R1'' = Some roomTalk \<and>
   endStream ''sB'' (sessions talk ''sB'') (db talk) 5 ''R1''
     = (sessions talk ''sB'', db talk, [(Caller, ErrorEv ''UNAUTHORIZED'')]) \<and>
   findByRoomId (db ended) ''R1''
     = Some (roomTalk\<lparr>isLive := False, status := Ended, endedAt := Some 5\<rparr>) \<and>
   joinRoom ''sC'' initSession (db (run ended [(''sB'', 6, Disconnect)])) 7 ''R1'' userC
     = (initSession, db (run ended [(''sB'', 6, Disconnect)]),
        [(Caller, ErrorEv ''ROOM_NOT_LIVE'')])"
proof -
  have b: "map_option uid (currentUser (sessions talk ''sB'')) \<noteq> Some (uid (admin roomTalk))"
    by (simp add: talk_sessions) (simp add: eval_defs)
  have a: "map_option uid (currentUser (sessions talk ''sA'')) = Some (uid (admin roomTalk))"
    by (simp add: talk_sessions) (simp add: eval_defs)
  have 1: "endStream ''sB'' (sessions talk ''sB'') (db talk) 5 ''R1''
     = (sessions talk ''sB'', db talk, [(Caller, ErrorEv ''UNAUTHORIZED'')])"
    using endStream_admin_only [OF talk_room, of "sessions talk ''sB''" "''sB''" 5] b by blast
  note T = endStream_admin_only [OF talk_room, of "sessions talk ''sA''" "''sA''" 5]
  have 2: "findByRoomId (db ended) ''R1''
     = Some (roomTalk\<lparr>isLive := False, status := Ended, endedAt := Some 5\<rparr>)"
    using T a unfolding ended_step by blast
  have "\<exists>r'. findByRoomId (db (run ended [(''sB'', 6, Disconnect)])) ''R1'' = Some r' \<and>
          status r' = Ended \<and> \<not> isLive r' \<and>
          joinRoom ''sC'' initSession (db (run ended [(''sB'', 6, Disconnect)])) 7 ''R1'' userC
            = (initSession, db (run ended [(''sB'', 6, Disconnect)]),
               [(Caller, ErrorEv ''ROOM_NOT_LIVE'')]) \<and>
          errorOf (snd (snd (leaveRoom ''sC'' initSession
                     (db (run ended [(''sB'', 6, Disconnect)])) 7 ''R1'' userC))) = None \<and>
          findByRoomId (fst (snd (leaveRoom ''sC'' initSession
                     (db (run ended [(''sB'', 6, Disconnect)])) 7 ''R1'' userC))) ''R1''
            = Some (removeParticipant 7 (uid userC) r')"
    using T a ended_step by blast
  then have 3: "joinRoom ''sC'' initSession (db (run ended [(''sB'', 6, Disconnect)])) 7 ''R1'' userC
     = (initSession, db (run ended [(''sB'', 6, Disconnect)]),
        [(Caller, ErrorEv ''ROOM_NOT_LIVE'')])"
    by blast
  show ?thesis using talk_room 1 2 3 by simp
qed

text \<open>
  Claim C9. An \<open>endStream\<close> that is carried out (room stored, the connection's
  current user has the admin's uid) leaves the caller's session as it was and writes
  to the store only room \<open>k\<close>, with \<open>isLive\<close>, \<open>status\<close> and \<open>endedAt\<close> set
  and every other stored field as before: the participants, the admin, the capacity
  and the rest. Every member at that moment is still a participant of the ended room.
\<close>

theorem endStream_frame:
  assumes f: "findByRoomId d k = Some r"
    and a: "map_option uid (currentUser s) = Some (uid (admin r))"
  shows "endStream sid s d now k =
           (s,
            d\<lparr>rooms := (rooms d)(k \<mapsto> r\<lparr>isLive := False, status := Ended, endedAt := Some now\<rparr>)\<rparr>,
            [(InRoom k, RoomDeleted k), (Everyone, RoomsUpdatedDeleted k)]) \<and>
         (\<exists>r'. findByRoomId (fst (snd (endStream sid s d now k))) k = Some r' \<and>
            isLive r' = False \<and> status r' = Ended \<and> endedAt r' = Some now \<and>
            participants r' = participants r \<and> admin r' = admin r \<and>
            maxParticipants r' = maxParticipants r \<and>
            currentParticipants r' = currentParticipants r \<and>
            rid r' = rid r \<and> title r' = title r \<and> description r' = description r \<and>
            streamKey r' = streamKey r \<and> thumbnail r' = thumbnail r \<and>
            category r' = category r \<and> tags r' = tags r \<and> isPublic r' = isPublic r \<and>
            startedAt r' = startedAt r \<and> createdBy r' = createdBy r \<and>
            lastActivity r' = lastActivity r)"
proof -
  have k: "rid r = k" using f by (simp add: findByRoomId_Some)
  have e: "endStream sid s d now k =
           (s,
            d\<lparr>rooms := (rooms d)(k \<mapsto> r\<lparr>isLive := False, status := Ended, endedAt := Some now\<rparr>)\<rparr>,
            [(InRoom k, RoomDeleted k), (Everyone, RoomsUpdatedDeleted k)])"
    using f a [symmetric] k by (simp add: endStream_def save_def)
  have "findByRoomId (fst (snd (endStream sid s d now k))) k
          = Some (r\<lparr>isLive := False, status := Ended, endedAt := Some now\<rparr>)"
    unfolding e using k by (simp add: findByRoomId_def)
  then show ?thesis using e by simp
qed

theorem endStream_frame_witness:
  "findByRoomId (db talk) ''R1'' = Some roomTalk \<and>
   map_option uid (currentUser (sessions talk ''sA'')) = Some (uid (admin roomTalk)) \<and>
   (\<exists>r'. findByRoomId (fst (snd (endStream ''sA'' (sessions talk ''sA'') (db talk) 5 ''R1'')))
            ''R1'' = Some r' \<and>
      status r' = Ended \<and> endedAt r' = Some 5 \<and>
      map p_uid (participants r') = [''A'', ''B''] \<and> maxParticipants r' = 2)"
proof -
  have a: "map_option uid (currentUser (sessions talk ''sA'')) = Some (uid (admin roomTalk))"
    by (simp add: talk_sessions) (simp add: eval_defs)
  have p: "map p_uid (participants roomTalk) = [''A'', ''B'']" "maxParticipants roomTalk = 2"
    by (simp_all add: eval_defs)
  from endStream_frame [OF talk_room a, of "''sA''" 5]
  obtain r' where
    "findByRoomId (fst (snd (endStream ''sA'' (sessions talk ''sA'') (db talk) 5 ''R1''))) ''R1''
       = Some r'"
    "status r' = Ended" "endedAt r' = Some 5" "participants r' = participants roomTalk"
    "maxParticipants r' = maxParticipants roomTalk"
    by blast
  then show ?thesis using talk_room a p
    by (intro conjI exI [of _ r']) simp_all
qed

section \<open>Leaving twice\<close>

lemma membership_save:
  "membership (save r d) k =
     (if rid r = k then Some (participants r, currentParticipants r) else membership d k)"
  by (simp add: membership_def findByRoomId_save)

lemma leaveRoom_membership:
  "membership (fst (snd (leaveRoom sid s d now k u))) k' =
     (if k' = k
      then map_option (\<lambda>r. (filter (\<lambda>p. p_uid p \<noteq> uid u) (participants r),
                             length (filter (\<lambda>p. p_uid p \<noteq> uid u) (participants r))))
             (findByRoomId d k)
      else membership d k')"
proof (cases "findByRoomId d k")
  case None
  then show ?thesis by (simp add: leaveRoom_def membership_def)
next
  case (Some r)
  then have "rid r = k" by (simp add: findByRoomId_Some)
  then show ?thesis using Some
    by (auto simp: leaveRoom_def Let_def membership_save removeParticipant_def)
qed

lemma leaveRoom_twice:
  "membership (fst (snd (leaveRoom sid' s' (fst (snd (leaveRoom sid s d now k u))) now' k u))) k'
     = membership (fst (snd (leaveRoom sid s d now k u))) k'"
proof (cases "k' = k")
  case False
  then show ?thesis by (simp add: leaveRoom_membership)
next
  case True
  have "findByRoomId (fst (snd (leaveRoom sid s d now k u))) k
          = map_option (removeParticipant now (uid u)) (findByRoomId d k)"
    by (cases "findByRoomId d k")
       (auto simp: leaveRoom_def Let_def findByRoomId_save removeParticipant_def
          dest: findByRoomId_Some)
  then show ?thesis using True
    by (cases "findByRoomId d k")
       (simp_all add: leaveRoom_membership [of sid' s'] leaveRoom_membership [of sid s]
          removeParticipant_def)
qed

lemma leaveRoom_no_error: "errorOf (snd (snd (leaveRoom sid s d now k u))) = None"
  by (simp add: leaveRoom_def Let_def split: option.splits)

lemma disconnect_no_error: "errorOf (snd (snd (disconnect sid s d now))) = None"
  by (simp add: disconnect_def Let_def split: option.splits)

lemma disconnect_session: "fst (disconnect sid s d now) = s"
  by (simp add: disconnect_def Let_def split: option.splits)

lemma disconnect_membership:
  "membership (fst (snd (disconnect sid s d now))) k' =
     (case (currentRoom s, currentUser s) of
        (Some cr, Some cu) \<Rightarrow>
          if cr \<noteq> [] \<and> k' = cr
          then map_option (\<lambda>r. (filter (\<lambda>p. p_uid p \<noteq> uid cu) (participants r),
                                 length (filter (\<lambda>p. p_uid p \<noteq> uid cu) (participants r))))
                 (findByRoomId d cr)
          else membership d k'
      | _ \<Rightarrow> membership d k')"
proof (cases "currentRoom s")
  case None
  then show ?thesis by (simp add: disconnect_def)
next
  case cr: (Some cr)
  show ?thesis
  proof (cases "currentUser s")
    case None
    then show ?thesis using cr by (simp add: disconnect_def)
  next
    case cu: (Some cu)
    show ?thesis
    proof (cases "findByRoomId d cr")
      case None
      then show ?thesis using cr cu by (simp add: disconnect_def membership_def)
    next
      case (Some r)
      then have "rid r = cr" by (simp add: findByRoomId_Some)
      then show ?thesis using Some cr cu
        by (auto simp: disconnect_def Let_def findByRoomId_save removeParticipant_def
            membership_def)
    qed
  qed
qed

lemma disconnect_twice:
  "membership (fst (snd (disconnect sid (fst (disconnect sid s d now))
                           (fst (snd (disconnect sid s d now))) now'))) k'
     = membership (fst (snd (disconnect sid s d now))) k'"
proof -
  have f: "\<And>cr cu. currentRoom s = Some cr \<Longrightarrow> currentUser s = Some cu \<Longrightarrow> cr \<noteq> [] \<Longrightarrow>
     findByRoomId (fst (snd (disconnect sid s d now))) cr
       = map_option (removeParticipant now (uid cu)) (findByRoomId d cr)"
    subgoal for cr cu
      by (cases "findByRoomId d cr")
         (auto simp: disconnect_def Let_def findByRoomId_save removeParticipant_def
            dest: findByRoomId_Some)
    done
  show ?thesis
    unfolding disconnect_session
      disconnect_membership [of sid s "fst (snd (disconnect sid s d now))"]
    by (auto simp: disconnect_membership [of sid s d] f removeParticipant_def
        option.map_comp comp_def split: option.splits)
qed

text \<open>
  Claim C6. \<open>leaveRoom\<close> never reports an error. On a room that is not stored it
  leaves the store as it is; on a stored room of which the uid is not a member (and
  whose count is consistent) the participants and the count shown to clients are as
  before. A second \<open>leaveRoom\<close> for the same room and uid, and a second run of the
  \<open>disconnect\<close> cleanup for the same connection, leave the participants and the
  count of every room as the first left them. (Each leave on a stored room stamps
  \<open>lastActivity\<close> anew.)
\<close>

theorem leave_idempotent:
  "errorOf (snd (snd (leaveRoom sid s d now k u))) = None \<and>
   membership (fst (snd (leaveRoom sid' s' (fst (snd (leaveRoom sid s d now k u))) now' k u))) k'
     = membership (fst (snd (leaveRoom sid s d now k u))) k' \<and>
   errorOf (snd (snd (disconnect sid s d now))) = None \<and>
   membership (fst (snd (disconnect sid (fst (disconnect sid s d now))
                           (fst (snd (disconnect sid s d now))) now'))) k'
     = membership (fst (snd (disconnect sid s d now))) k' \<and>
   (findByRoomId d k = None \<longrightarrow> fst (snd (leaveRoom sid s d now k u)) = d) \<and>
   (\<forall>r. findByRoomId d k = Some r \<longrightarrow> uidCount (uid u) r = 0 \<longrightarrow>
        currentParticipants r = length (participants r) \<longrightarrow>
        membership (fst (snd (leaveRoom sid s d now k u))) k = membership d k)"
proof (intro conjI impI allI)
  show "errorOf (snd (snd (leaveRoom sid s d now k u))) = None" by (rule leaveRoom_no_error)
  show "errorOf (snd (snd (disconnect sid s d now))) = None" by (rule disconnect_no_error)
  show "membership (fst (snd (leaveRoom sid' s' (fst (snd (leaveRoom sid s d now k u))) now' k u))) k'
     = membership (fst (snd (leaveRoom sid s d now k u))) k'" by (rule leaveRoom_twice)
  show "membership (fst (snd (disconnect sid (fst (disconnect sid s d now))
                           (fst (snd (disconnect sid s d now))) now'))) k'
     = membership (fst (snd (disconnect sid s d now))) k'" by (rule disconnect_twice)
next
  assume "findByRoomId d k = None"
  then show "fst (snd (leaveRoom sid s d now k u)) = d" by (simp add: leaveRoom_def)
next
  fix r
  assume f: "findByRoomId d k = Some r" and c: "uidCount (uid u) r = 0"
    and n: "currentParticipants r = length (participants r)"
  from c have "filter (\<lambda>p. p_uid p \<noteq> uid u) (participants r) = participants r"
    by (auto simp: uidCount_def filter_empty_conv filter_id_conv)
  then show "membership (fst (snd (leaveRoom sid s d now k u))) k = membership d k"
    using f n by (simp add: leaveRoom_membership, simp add: membership_def)
qed

theorem leave_idempotent_witness:
  "findByRoomId (db full) ''R1'' = Some roomFull \<and>
   uidCount ''C'' roomFull = 0 \<and>
   membership (fst (snd (leaveRoom ''sC'' initSession (db full) 7 ''R1'' userC))) ''R1''
     = membership (db full) ''R1'' \<and>
   map_option snd (membership (db full) ''R1'') = Some 2 \<and>
   findByRoomId (db full) ''R9'' = None \<and>
   fst (snd (leaveRoom ''sC'' initSession (db full) 7 ''R9'' userC)) = db full"
proof -
  have c: "uidCount (uid userC) roomFull = 0"
    "currentParticipants roomFull = length (participants roomFull)"
    "uid userC = ''C''" "currentParticipants roomFull = 2"
    by (simp_all add: uidCount_def eval_defs)
  have n: "findByRoomId (db full) ''R9'' = None"
    by (simp add: eval_defs)
  have 1: "membership (fst (snd (leaveRoom ''sC'' initSession (db full) 7 ''R1'' userC))) ''R1''
     = membership (db full) ''R1''"
    using leave_idempotent [of "''sC''" initSession "db full" 7 "''R1''" userC] full_room c(1,2)
    by blast
  have 2: "fst (snd (leaveRoom ''sC'' initSession (db full) 7 ''R9'' userC)) = db full"
    using leave_idempotent [of "''sC''" initSession "db full" 7 "''R9''" userC] n
    by blast
  show ?thesis using 1 2 n full_room c by (simp add: membership_def)
qed

section \<open>Searching a room's messages\<close>

lemmas search_defs = searchMessages_def specSearch_def containsCI_def toLower_def metaChars_def
  sublist_Cons_right prefix_Cons

lemma parseRegex_plain: "set q \<inter> set metaChars = {} \<Longrightarrow> parseRegex q = Some (map Lit q)"
  by (induction q) (auto simp: metaChars_def)

lemma matchHere_prefix: "matchHere (map Lit q) t = prefix (map toLower q) (map toLower t)"
  by (induction q arbitrary: t) (case_tac t; simp)+

lemma regexSearch_sublist: "regexSearch (map Lit q) t = sublist (map toLower q) (map toLower t)"
  by (induction t) (auto simp: matchHere_prefix sublist_Cons_right)

lemma sortDesc_sorted: "sorted_wrt (\<lambda>a b. createdAt b \<le> createdAt a) (sortDesc ms)"
proof -
  have "sorted (map (\<lambda>m. - int (createdAt m)) (sortDesc ms))"
    by (simp add: sortDesc_def)
  then show ?thesis by (simp add: sorted_wrt_map sorted_wrt_iff_nth_less)
qed

lemma sortDesc_mset: "mset (sortDesc ms) = mset ms"
  by (simp add: sortDesc_def)

text \<open>
  Against claim C8 as stated. The only message of \<open>R1\<close> is Bob's "hi". The query
  \<open>h.\<close> returns it, though "hi" does not contain the two characters \<open>h.\<close>: the
  query is matched as a regular expression, in which the dot stands for any
  character. And the query \<open>HI\<close> with limit 0 returns the message, where a result
  cut to 0 messages is empty: the store reads a limit of 0 as no limit.
\<close>

theorem searchMessages_regex_not_substring:
  "searchMessages (db ended) ''R1'' ''h.'' 20
     = Some [messageData ''sB'' 4 ''m4'' ''R1'' ''hi'' userB] \<and>
   m_text (messageData ''sB'' 4 ''m4'' ''R1'' ''hi'' userB) = ''hi'' \<and>
   \<not> containsCI ''h.'' ''hi'' \<and>
   specSearch (db ended) ''R1'' ''h.'' 20 = [] \<and>
   searchMessages (db ended) ''R1'' ''HI'' 0
     = Some [messageData ''sB'' 4 ''m4'' ''R1'' ''hi'' userB] \<and>
   specSearch (db ended) ''R1'' ''HI'' 0 = []"
  by (simp add: search_defs eval_defs)

text \<open>
  Claim C8, amended. For every room, every query that contains no character of the
  regular-expression syntax (backslash, \<open>^ $ . | ? * + ( ) [ ] { }\<close>) and every limit
  greater than 0, \<open>searchMessages\<close> returns what the specification's search
  returns: the messages of the room that are not deleted and whose text contains the
  query as a substring, letter case ignored, ordered by creation time descending and
  cut to the limit.
\<close>

theorem searchMessages_plain_query:
  assumes q: "set q \<inter> set metaChars = {}" and l: "0 < limit"
  shows "searchMessages d roomId q limit = Some (specSearch d roomId q limit) \<and>
         sorted_wrt (\<lambda>a b. createdAt b \<le> createdAt a) (specSearch d roomId q limit) \<and>
         length (specSearch d roomId q limit) \<le> limit \<and>
         (\<exists>ms. specSearch d roomId q limit = take limit ms \<and>
            mset ms = mset (filter (\<lambda>m. m_roomId m = roomId \<and> \<not> isDeleted m \<and>
                                         containsCI q (m_text m)) (messages d)))"
proof (intro conjI)
  show "searchMessages d roomId q limit = Some (specSearch d roomId q limit)"
    using l by (simp add: searchMessages_def specSearch_def parseRegex_plain [OF q]
        regexSearch_sublist containsCI_def limitDocs_def)
  show "sorted_wrt (\<lambda>a b. createdAt b \<le> createdAt a) (specSearch d roomId q limit)"
    unfolding specSearch_def by (rule sorted_wrt_take) (rule sortDesc_sorted)
  show "length (specSearch d roomId q limit) \<le> limit"
    by (simp add: specSearch_def)
  show "\<exists>ms. specSearch d roomId q limit = take limit ms \<and>
            mset ms = mset (filter (\<lambda>m. m_roomId m = roomId \<and> \<not> isDeleted m \<and>
                                         containsCI q (m_text m)) (messages d))"
    unfolding specSearch_def using sortDesc_mset by blast
qed

theorem searchMessages_plain_query_witness:
  "set ''HI'' \<inter> set metaChars = {} \<and> (0::nat) < 20 \<and>
   searchMessages (db ended) ''R1'' ''HI'' 20 = Some (specSearch (db ended) ''R1'' ''HI'' 20) \<and>
   specSearch (db ended) ''R1'' ''HI'' 20 = [messageData ''sB'' 4 ''m4'' ''R1'' ''hi'' userB]"
proof -
  have q: "set ''HI'' \<inter> set metaChars = {}" by (simp add: metaChars_def)
  have l: "(0::nat) < 20" by simp
  have "specSearch (db ended) ''R1'' ''HI'' 20 = [messageData ''sB'' 4 ''m4'' ''R1'' ''hi'' userB]"
    by (simp add: search_defs eval_defs)
  then show ?thesis
    using searchMessages_plain_query [OF q l, of "db ended" "''R1''"] q by simp
qed

end
